theory Spec2Isabelle
  imports Complex_Main "HOL-Library.Sublist" "HOL-Library.Multiset"
begin

section \<open>The gateway of enhance-prompt.js\<close>

text \<open>
  The Netlify function \<^verbatim>\<open>enhance-prompt.js\<close> relays a request through one of several
  proxies. Its module state is the health map \<^verbatim>\<open>proxyHealth\<close> and the cursor
  \<^verbatim>\<open>proxyIndex\<close>; its environment is the wall clock (\<^verbatim>\<open>Date.now()\<close>) and the upstream
  that answers \<^verbatim>\<open>fetch\<close>. Numbers are modelled as integers: the clock counts integer
  milliseconds, the configuration holds integers and \<^verbatim>\<open>MAX_RETRIES\<close> is a natural number;
  the pool is a list of strings. The last section of definitions relates the numbers of
  the configuration to the environment variables they are read from.
\<close>

subsection \<open>Configuration and module state\<close>

record config =
  PROXIES :: "string list"
  REQUEST_TIMEOUT_MS :: int
  MAX_RETRIES :: nat
  BACKOFF_BASE_MS :: int
  PROXY_MARK_DOWN_MS :: int

definition DEFAULT_PROXIES :: "string list" where
  "DEFAULT_PROXIES =
     [''https://cors.bridged.cc/'',
      ''https://api.allorigins.win/raw?url='',
      ''https://api.allorigins.cf/raw?url='',
      ''https://thingproxy.freeboard.io/fetch/'',
      ''https://api.codetabs.cn/proxy?quest='',
      ''https://cors-anywhere.herokuapp.com/'',
      ''https://proxy.cors.sh/'',
      ''https://yacdn.org/proxy/'']"

text \<open>The configuration the module computes when no environment variable is set.\<close>

definition default_config :: config where
  "default_config =
     \<lparr>PROXIES = DEFAULT_PROXIES, REQUEST_TIMEOUT_MS = 20000, MAX_RETRIES = 4,
      BACKOFF_BASE_MS = 400, PROXY_MARK_DOWN_MS = 45000\<rparr>"

record health =
  downUntil :: int

text \<open>
  \<open>reads\<close> counts the calls of \<^verbatim>\<open>Date.now()\<close> made so far: the \<open>k\<close>-th call returns
  \<open>clock k\<close> of the environment.
\<close>

record gstate =
  proxyHealth :: "string \<rightharpoonup> health"
  proxyIndex :: int
  reads :: nat

definition initial_state :: gstate where
  "initial_state = \<lparr>proxyHealth = Map.empty, proxyIndex = - 1, reads = 0\<rparr>"

subsection \<open>JavaScript primitives\<close>

text \<open>The remainder \<^verbatim>\<open>a % b\<close> takes the sign of the dividend.\<close>

definition js_rem :: "int \<Rightarrow> int \<Rightarrow> int" where
  "js_rem a b = sgn a * (\<bar>a\<bar> mod \<bar>b\<bar>)"

text \<open>\<^verbatim>\<open>x || 0\<close> on a number: \<open>0\<close> when \<open>x\<close> is falsy, that is when it is \<open>0\<close>.\<close>

definition or_zero :: "int \<Rightarrow> int" where
  "or_zero x = (if x = 0 then 0 else x)"

text \<open>
  What \<^verbatim>\<open>pickNextProxy\<close> can return: \<^verbatim>\<open>null\<close>, a pool entry, or \<^verbatim>\<open>undefined\<close> (a read
  of the pool outside its bounds).
\<close>

datatype proxy_ref = Null | Undefined | Url string

definition js_index :: "string list \<Rightarrow> int \<Rightarrow> proxy_ref" where
  "js_index xs i = (if 0 \<le> i \<and> i < int (length xs) then Url (xs ! nat i) else Undefined)"

text \<open>The property key a value is converted to in \<^verbatim>\<open>proxyHealth[candidate]\<close>.\<close>

fun key_of :: "proxy_ref \<Rightarrow> string" where
  "key_of Null = ''null''"
| "key_of Undefined = ''undefined''"
| "key_of (Url u) = u"

text \<open>Truthiness (\<^verbatim>\<open>!!proxy\<close>): only a non-empty string is truthy.\<close>

fun truthy_ref :: "proxy_ref \<Rightarrow> bool" where
  "truthy_ref (Url u) = (u \<noteq> [])"
| "truthy_ref _ = False"

subsection \<open>Clock, selector and health tracker\<close>

type_synonym clock = "nat \<Rightarrow> int"

definition now :: "clock \<Rightarrow> gstate \<Rightarrow> int \<times> gstate" where
  "now clk s = (clk (reads s), s\<lparr>reads := Suc (reads s)\<rparr>)"

text \<open>
  The loop of \<^verbatim>\<open>pickNextProxy\<close>; the first argument after the clock is the number of
  iterations left, \<open>n - i\<close>.
\<close>

fun pick_loop :: "config \<Rightarrow> clock \<Rightarrow> nat \<Rightarrow> gstate \<Rightarrow> proxy_ref \<times> gstate" where
  "pick_loop cfg clk 0 s = (Null, s)"
| "pick_loop cfg clk (Suc k) s =
     (let s1 = s\<lparr>proxyIndex := js_rem (proxyIndex s + 1) (int (length (PROXIES cfg)))\<rparr>;
          candidate = js_index (PROXIES cfg) (proxyIndex s1)
      in case proxyHealth s1 (key_of candidate) of
           None \<Rightarrow> (candidate, s1)
         | Some st \<Rightarrow>
             (case now clk s1 of (t, s2) \<Rightarrow>
                if or_zero (downUntil st) \<le> t then (candidate, s2)
                else pick_loop cfg clk k s2))"

definition pickNextProxy :: "config \<Rightarrow> clock \<Rightarrow> gstate \<Rightarrow> proxy_ref \<times> gstate" where
  "pickNextProxy cfg clk s =
     (let n = length (PROXIES cfg)
      in if n = 0 then (Null, s) else pick_loop cfg clk n s)"

definition markProxyDown :: "config \<Rightarrow> clock \<Rightarrow> string \<Rightarrow> gstate \<Rightarrow> gstate" where
  "markProxyDown cfg clk proxyUrl s =
     (case now clk s of (t, s1) \<Rightarrow>
        s1\<lparr>proxyHealth := (proxyHealth s1)(proxyUrl \<mapsto> \<lparr>downUntil = t + PROXY_MARK_DOWN_MS cfg\<rparr>)\<rparr>)"


text \<open>The cursor is \<open>-1\<close> at start and a pool index ever after.\<close>

definition cursor_ok :: "config \<Rightarrow> gstate \<Rightarrow> bool" where
  "cursor_ok cfg s \<longleftrightarrow> - 1 \<le> proxyIndex s \<and> proxyIndex s < int (length (PROXIES cfg))"

text \<open>The test of line 65: no record, or a record whose window has passed at time \<open>t\<close>.\<close>

definition healthy_at :: "gstate \<Rightarrow> string \<Rightarrow> int \<Rightarrow> bool" where
  "healthy_at s p t \<longleftrightarrow>
     (case proxyHealth s p of None \<Rightarrow> True | Some st \<Rightarrow> or_zero (downUntil st) \<le> t)"

text \<open>The pool entry \<open>j + 1\<close> places after the cursor \<open>c\<close>, cyclically.\<close>

definition cand :: "config \<Rightarrow> int \<Rightarrow> nat \<Rightarrow> string" where
  "cand cfg c j = PROXIES cfg ! nat ((c + 1 + int j) mod int (length (PROXIES cfg)))"



text \<open>
  The module states that calls of \<^verbatim>\<open>pickNextProxy\<close>, \<^verbatim>\<open>markProxyDown\<close> and \<^verbatim>\<open>Date.now()\<close>
  can produce from the state the module is loaded with.
\<close>

inductive reachable :: "config \<Rightarrow> clock \<Rightarrow> gstate \<Rightarrow> bool" for cfg clk where
  reach_init: "reachable cfg clk initial_state"
| reach_pick: "reachable cfg clk s \<Longrightarrow> reachable cfg clk (snd (pickNextProxy cfg clk s))"
| reach_mark: "reachable cfg clk s \<Longrightarrow> reachable cfg clk (markProxyDown cfg clk p s)"
| reach_read: "reachable cfg clk s \<Longrightarrow> reachable cfg clk (snd (now clk s))"

subsection \<open>Sample environments\<close>

text \<open>A clock that advances by one second between two readings.\<close>

definition tick_clock :: clock where
  "tick_clock k = 1000 * int k"

text \<open>The state after every proxy of the pool has been marked down once.\<close>

definition all_marked_down :: "config \<Rightarrow> clock \<Rightarrow> gstate" where
  "all_marked_down cfg clk = fold (markProxyDown cfg clk) (PROXIES cfg) initial_state"

section \<open>The request handler\<close>

subsection \<open>JSON values and their serialisation\<close>

text \<open>
  The values \<^verbatim>\<open>JSON.parse\<close> yields and \<^verbatim>\<open>JSON.stringify\<close> takes, with integers for
  numbers. An object is the list of its properties in insertion order.
\<close>

datatype json =
    JNull
  | JBool bool
  | JNum int
  | JStr string
  | JArr "json list"
  | JObj "(string \<times> json) list"

definition digit_char :: "nat \<Rightarrow> char" where
  "digit_char d = ''0123456789abcdef'' ! d"

fun show_nat :: "nat \<Rightarrow> string" where
  "show_nat n = (if n < 10 then [digit_char n] else show_nat (n div 10) @ [digit_char (n mod 10)])"

definition show_int :: "int \<Rightarrow> string" where
  "show_int i = (if i < 0 then CHR ''-'' # show_nat (nat (- i)) else show_nat (nat i))"

text \<open>
  The escapes of \<^verbatim>\<open>JSON.stringify\<close> inside a string: the quote, the backslash, the five
  short escapes and \<^verbatim>\<open>\u00XX\<close> for the other control characters.
\<close>

definition escape_char :: "char \<Rightarrow> string" where
  "escape_char c =
     (if c = CHR 0x22 then [CHR 0x5C, CHR 0x22]
      else if c = CHR 0x5C then [CHR 0x5C, CHR 0x5C]
      else if c = CHR 0x08 then [CHR 0x5C, CHR ''b'']
      else if c = CHR 0x0C then [CHR 0x5C, CHR ''f'']
      else if c = CHR 0x0A then [CHR 0x5C, CHR ''n'']
      else if c = CHR 0x0D then [CHR 0x5C, CHR ''r'']
      else if c = CHR 0x09 then [CHR 0x5C, CHR ''t'']
      else if (of_char c :: nat) < 32
        then [CHR 0x5C, CHR ''u'', CHR ''0'', CHR ''0'',
              digit_char (of_char c div 16), digit_char (of_char c mod 16)]
      else [c])"

definition quote :: "string \<Rightarrow> string" where
  "quote s = CHR 0x22 # concat (map escape_char s) @ [CHR 0x22]"

fun join_commas :: "string list \<Rightarrow> string" where
  "join_commas [] = []"
| "join_commas [x] = x"
| "join_commas (x # y # ys) = x @ CHR '','' # join_commas (y # ys)"

fun stringify :: "json \<Rightarrow> string" where
  "stringify JNull = ''null''"
| "stringify (JBool b) = (if b then ''true'' else ''false'')"
| "stringify (JNum i) = show_int i"
| "stringify (JStr s) = quote s"
| "stringify (JArr xs) = CHR ''['' # join_commas (map stringify xs) @ '']''"
| "stringify (JObj kvs) =
     CHR ''{'' # join_commas (map (\<lambda>kv. quote (fst kv) @ CHR '':'' # stringify (snd kv)) kvs) @ ''}''"

text \<open>\<^verbatim>\<open>!!v\<close> for a JSON value; \<open>None\<close> stands for \<^verbatim>\<open>undefined\<close>.\<close>

fun truthy :: "json option \<Rightarrow> bool" where
  "truthy None = False"
| "truthy (Some JNull) = False"
| "truthy (Some (JBool b)) = b"
| "truthy (Some (JNum i)) = (i \<noteq> 0)"
| "truthy (Some (JStr s)) = (s \<noteq> [])"
| "truthy (Some (JArr xs)) = True"
| "truthy (Some (JObj kvs)) = True"

text \<open>
  Reading one of the properties the handler destructures (\<^verbatim>\<open>targetUrl\<close>, \<^verbatim>\<open>method\<close>,
  \<^verbatim>\<open>headers\<close>, \<^verbatim>\<open>body\<close>): a parsed object holds the last value given for a key, any
  other value that is not \<^verbatim>\<open>null\<close> has none of the four.
\<close>

fun get_prop :: "json \<Rightarrow> string \<Rightarrow> json option" where
  "get_prop (JObj kvs) k = map_of (rev kvs) k"
| "get_prop _ k = None"

subsection \<open>Events, requests and responses\<close>

record event =
  httpMethod :: string
  ev_body :: "string option"

record response =
  statusCode :: nat
  body :: string
  headers :: "(string \<times> string) list option"

definition header :: "response \<Rightarrow> string \<Rightarrow> string option" where
  "header r name = (case headers r of None \<Rightarrow> None | Some hs \<Rightarrow> map_of hs name)"

text \<open>
  The URL given to \<^verbatim>\<open>fetch\<close>: the target as it is, or \<^verbatim>\<open>proxy + targetUrl\<close> (\<open>Via\<close>).
\<close>

datatype final_url = Direct json | Via string json

text \<open>
  The body given to \<^verbatim>\<open>fetch\<close>: the text \<^verbatim>\<open>JSON.stringify\<close> made of an object, or the
  value of the payload as it is.
\<close>

datatype sent_body = SentText string | SentValue "json option"

record request =
  req_url :: final_url
  req_method :: json
  req_headers :: json
  req_body :: sent_body

text \<open>
  What an upstream response offers: its status, its \<^verbatim>\<open>content-type\<close> header and what
  \<^verbatim>\<open>res.text()\<close> and \<^verbatim>\<open>res.json()\<close> settle to (\<open>Inl\<close> the message of the error thrown).
\<close>

record upstream_response =
  status :: nat
  content_type :: "string option"
  text_result :: "string + string"
  json_result :: "string + json"

datatype fetch_outcome = Rejected string | Responded upstream_response

text \<open>
  The environment of one invocation: the clock, what \<^verbatim>\<open>fetchWithTimeout\<close> settles to on
  the \<open>k\<close>-th attempt (a response, or a rejection such as \<^verbatim>\<open>timeout\<close>), and \<^verbatim>\<open>JSON.parse\<close>
  (\<open>Inl\<close> the text of the error thrown).
\<close>

record world =
  clock :: clock
  upstream :: "nat \<Rightarrow> request \<Rightarrow> int \<Rightarrow> fetch_outcome"
  json_parse :: "string \<Rightarrow> string + json"

text \<open>What the handler does to the outside, in order.\<close>

datatype effect = Fetched proxy_ref request | Slept int | Logged string

record params =
  targetUrl :: json
  p_method :: json
  p_headers :: json
  reqBody :: "json option"

definition cors_json :: "(string \<times> string) list" where
  "cors_json = [(''Content-Type'', ''application/json''), (''Access-Control-Allow-Origin'', ''*'')]"

definition ok :: "upstream_response \<Rightarrow> bool" where
  "ok res \<longleftrightarrow> 200 \<le> status res \<and> status res \<le> 299"

text \<open>\<^verbatim>\<open>s.includes(sub)\<close>.\<close>

fun str_includes :: "string \<Rightarrow> string \<Rightarrow> bool" where
  "str_includes [] sub = (sub = [])"
| "str_includes (c # cs) sub = (prefix sub (c # cs) \<or> str_includes cs sub)"

text \<open>\<^verbatim>\<open>proxy || null\<close>.\<close>

definition proxy_or_null :: "proxy_ref \<Rightarrow> json" where
  "proxy_or_null proxy = (if truthy_ref proxy then JStr (key_of proxy) else JNull)"

definition fetch_body :: "json option \<Rightarrow> sent_body" where
  "fetch_body rb =
     (case rb of
        Some (JObj kvs) \<Rightarrow> SentText (stringify (JObj kvs))
      | Some (JArr xs) \<Rightarrow> SentText (stringify (JArr xs))
      | _ \<Rightarrow> SentValue rb)"

definition backoff :: "config \<Rightarrow> nat \<Rightarrow> int" where
  "backoff cfg attempt = BACKOFF_BASE_MS cfg * 2 ^ attempt"

text \<open>
  The URL and the options of the attempt: \<^verbatim>\<open>proxy + targetUrl\<close> when a proxy is used,
  the target itself otherwise.
\<close>

definition fetch_opts :: "params \<Rightarrow> proxy_ref \<Rightarrow> request" where
  "fetch_opts pr proxy =
     \<lparr>req_url = (if truthy_ref proxy then Via (key_of proxy) (targetUrl pr)
                  else Direct (targetUrl pr)),
      req_method = p_method pr, req_headers = p_headers pr,
      req_body = fetch_body (reqBody pr)\<rparr>"

subsection \<open>One attempt\<close>

datatype step = Continue json | Return response

text \<open>
  The \<^verbatim>\<open>catch\<close> of the attempt: record the error, mark the proxy down if one was used,
  wait and go on.
\<close>

definition attempt_catch ::
  "config \<Rightarrow> world \<Rightarrow> proxy_ref \<Rightarrow> nat \<Rightarrow> string \<Rightarrow> gstate \<Rightarrow> step \<times> gstate \<times> effect list" where
  "attempt_catch cfg w proxy attempt msg s =
     (let lastError = JObj [(''error'', JStr msg), (''proxy'', proxy_or_null proxy),
                            (''attempt'', JNum (int attempt))];
          s1 = (if truthy_ref proxy then markProxyDown cfg (clock w) (key_of proxy) s else s)
      in (Continue lastError, s1, [Slept (backoff cfg attempt)]))"

definition success_response :: "proxy_ref \<Rightarrow> int \<Rightarrow> json \<Rightarrow> response" where
  "success_response proxy latency data =
     \<lparr>statusCode = 200,
      body = stringify (JObj [(''success'', JBool True), (''proxy'', proxy_or_null proxy),
                              (''latency'', JNum latency), (''data'', data)]),
      headers = Some cors_json\<rparr>"

definition attempt_body ::
  "config \<Rightarrow> world \<Rightarrow> params \<Rightarrow> nat \<Rightarrow> gstate \<Rightarrow> step \<times> gstate \<times> effect list" where
  "attempt_body cfg w pr attempt s =
     (case pickNextProxy cfg (clock w) s of (proxy, s1) \<Rightarrow>
      let useProxy = truthy_ref proxy;
          fetchOpts = fetch_opts pr proxy
      in case now (clock w) s1 of (start, s2) \<Rightarrow>
      (case upstream w attempt fetchOpts (REQUEST_TIMEOUT_MS cfg) of
         Rejected msg \<Rightarrow>
           (case attempt_catch cfg w proxy attempt msg s2 of
              (st, s', es) \<Rightarrow> (st, s', Fetched proxy fetchOpts # es))
       | Responded res \<Rightarrow>
           (case now (clock w) s2 of (t, s3) \<Rightarrow>
            let latency = t - start in
            if \<not> ok res then
              (let text = (case text_result res of Inl e \<Rightarrow> ''<no body>'' | Inr x \<Rightarrow> x);
                   lastError = JObj [(''status'', JNum (int (status res))), (''text'', JStr text),
                                     (''proxy'', proxy_or_null proxy), (''latency'', JNum latency)]
               in if useProxy \<and> 500 \<le> status res \<and> status res < 600 then
                    (Continue lastError, markProxyDown cfg (clock w) (key_of proxy) s3,
                     [Fetched proxy fetchOpts, Slept (backoff cfg attempt)])
                  else
                    (Return \<lparr>statusCode = status res,
                             body = stringify (JObj [(''error'', JStr ''Upstream returned error''),
                                                     (''details'', JStr text)]),
                             headers = Some cors_json\<rparr>,
                     s3, [Fetched proxy fetchOpts]))
            else
              (let contentType = (case content_type res of None \<Rightarrow> [] | Some c \<Rightarrow> c)
               in if str_includes contentType ''application/json'' then
                    (case json_result res of
                       Inl msg \<Rightarrow>
                         (case attempt_catch cfg w proxy attempt msg s3 of
                            (st, s', es) \<Rightarrow> (st, s', Fetched proxy fetchOpts # es))
                     | Inr responseBody \<Rightarrow>
                         (Return (success_response proxy latency responseBody), s3,
                          [Fetched proxy fetchOpts]))
                  else
                    (case text_result res of
                       Inl msg \<Rightarrow>
                         (case attempt_catch cfg w proxy attempt msg s3 of
                            (st, s', es) \<Rightarrow> (st, s', Fetched proxy fetchOpts # es))
                     | Inr text \<Rightarrow>
                         (Return (success_response proxy latency (JStr text)), s3,
                          [Fetched proxy fetchOpts]))))))"


subsection \<open>The retry loop and the handler\<close>

definition exhausted_response :: "json \<Rightarrow> response" where
  "exhausted_response lastError =
     \<lparr>statusCode = 502,
      body = stringify (JObj [(''error'', JStr ''All attempts failed''), (''lastError'', lastError)]),
      headers = Some cors_json\<rparr>"

function retry_loop ::
  "config \<Rightarrow> world \<Rightarrow> params \<Rightarrow> nat \<Rightarrow> json \<Rightarrow> gstate \<Rightarrow> response \<times> gstate \<times> effect list" where
  "retry_loop cfg w pr attempt lastError s =
     (if attempt < MAX_RETRIES cfg then
        (case attempt_body cfg w pr attempt s of
           (Return r, s1, es) \<Rightarrow> (r, s1, es)
         | (Continue lastError1, s1, es) \<Rightarrow>
             (case retry_loop cfg w pr (Suc attempt) lastError1 s1 of
                (r, s2, es2) \<Rightarrow> (r, s2, es @ es2)))
      else (exhausted_response lastError, s, []))"
  by pat_completeness auto
termination
  by (relation "measure (\<lambda>(cfg, w, pr, attempt, lastError, s). MAX_RETRIES cfg - attempt)") auto

text \<open>
  The text \<^verbatim>\<open>String(e)\<close> of the error thrown when the payload \<^verbatim>\<open>null\<close> is destructured
  (as V8 words it).
\<close>

definition destructure_null_error :: string where
  "destructure_null_error =
     ''TypeError: Cannot destructure property 'targetUrl' of 'payload' as it is null.''"

definition internal_error :: "string \<Rightarrow> response" where
  "internal_error msg =
     \<lparr>statusCode = 500,
      body = stringify (JObj [(''error'', JStr ''Internal server error''), (''message'', JStr msg)]),
      headers = Some cors_json\<rparr>"

definition preflight_response :: response where
  "preflight_response =
     \<lparr>statusCode = 204, body = [],
      headers = Some [(''Access-Control-Allow-Origin'', ''*''),
                      (''Access-Control-Allow-Methods'', ''POST,OPTIONS''),
                      (''Access-Control-Allow-Headers'', ''Content-Type'')]\<rparr>"

text \<open>The two early answers, returned without a \<^verbatim>\<open>headers\<close> property.\<close>

definition method_not_allowed :: response where
  "method_not_allowed =
     \<lparr>statusCode = 405, body = stringify (JObj [(''error'', JStr ''Only POST allowed'')]),
      headers = None\<rparr>"

definition bad_request :: response where
  "bad_request =
     \<lparr>statusCode = 400, body = stringify (JObj [(''error'', JStr ''targetUrl required'')]),
      headers = None\<rparr>"

text \<open>
  The first lines of the \<^verbatim>\<open>try\<close> block: parse the body of the event and destructure the
  payload. \<open>Inl\<close> is an early answer with what was logged; \<open>Inr\<close> the parameters of the
  retry loop.
\<close>

definition read_params :: "world \<Rightarrow> event \<Rightarrow> (response \<times> effect list) + params" where
  "read_params w ev =
     (case json_parse w (case ev_body ev of None \<Rightarrow> ''{}'' | Some b \<Rightarrow> if b = [] then ''{}'' else b) of
        Inl msg \<Rightarrow> Inl (internal_error msg, [Logged msg])
      | Inr payload \<Rightarrow>
          if payload = JNull
          then Inl (internal_error destructure_null_error, [Logged destructure_null_error])
          else
            (case get_prop payload ''targetUrl'' of
               None \<Rightarrow> Inl (bad_request, [])
             | Some target \<Rightarrow>
                 if \<not> truthy (Some target) then Inl (bad_request, [])
                 else
                   Inr \<lparr>targetUrl = target,
                        p_method = (case get_prop payload ''method'' of
                                      None \<Rightarrow> JStr ''POST'' | Some m \<Rightarrow> m),
                        p_headers = (case get_prop payload ''headers'' of
                                       None \<Rightarrow> JObj [] | Some h \<Rightarrow> h),
                        reqBody = get_prop payload ''body''\<rparr>))"

definition handler ::
  "config \<Rightarrow> world \<Rightarrow> event \<Rightarrow> gstate \<Rightarrow> response \<times> gstate \<times> effect list" where
  "handler cfg w ev s =
     (if httpMethod ev = ''OPTIONS'' then (preflight_response, s, [])
      else if httpMethod ev \<noteq> ''POST'' then (method_not_allowed, s, [])
      else
        (case read_params w ev of
           Inl (r, es) \<Rightarrow> (r, s, es)
         | Inr pr \<Rightarrow> retry_loop cfg w pr 0 JNull s))"

subsection \<open>Reading a trace\<close>

text \<open>The proxies of the attempts made and the delays waited, in order.\<close>

fun proxies_used :: "effect list \<Rightarrow> proxy_ref list" where
  "proxies_used [] = []"
| "proxies_used (Fetched p rq # es) = p # proxies_used es"
| "proxies_used (e # es) = proxies_used es"

fun delays :: "effect list \<Rightarrow> int list" where
  "delays [] = []"
| "delays (Slept d # es) = d # delays es"
| "delays (e # es) = delays es"


subsection \<open>Sample events and upstreams\<close>

definition sample_payload :: json where
  "sample_payload = JObj [(''targetUrl'', JStr ''https://example.org/api'')]"

definition sample_params :: params where
  "sample_params =
     \<lparr>targetUrl = JStr ''https://example.org/api'', p_method = JStr ''POST'',
      p_headers = JObj [], reqBody = None\<rparr>"

text \<open>\<^verbatim>\<open>JSON.parse\<close> on the two texts the samples need.\<close>

definition sample_parse :: "string \<Rightarrow> string + json" where
  "sample_parse txt =
     (if txt = stringify sample_payload then Inr sample_payload
      else if txt = ''{}'' then Inr (JObj [])
      else Inl ''SyntaxError: Unexpected token'')"

definition post_event :: event where
  "post_event = \<lparr>httpMethod = ''POST'', ev_body = Some (stringify sample_payload)\<rparr>"

definition get_event :: event where
  "get_event = \<lparr>httpMethod = ''GET'', ev_body = None\<rparr>"

definition empty_post_event :: event where
  "empty_post_event = \<lparr>httpMethod = ''POST'', ev_body = None\<rparr>"

definition response_503 :: upstream_response where
  "response_503 =
     \<lparr>status = 503, content_type = Some ''text/plain'',
      text_result = Inr ''unavailable'', json_result = Inl ''Unexpected token u''\<rparr>"

definition response_404 :: upstream_response where
  "response_404 =
     \<lparr>status = 404, content_type = Some ''text/plain'',
      text_result = Inr ''not found'', json_result = Inl ''Unexpected token n''\<rparr>"


definition constant_world :: "upstream_response \<Rightarrow> world" where
  "constant_world res =
     \<lparr>clock = tick_clock, upstream = (\<lambda>k rq t. Responded res), json_parse = sample_parse\<rparr>"



section \<open>Numeric configuration\<close>


























section \<open>Selector and health tracker: properties\<close>

lemma or_zero_id [simp]: "or_zero x = x"
  by (simp add: or_zero_def)

lemma js_rem_nonneg: "0 \<le> a \<Longrightarrow> 0 < b \<Longrightarrow> js_rem a b = a mod b"
  by (simp add: js_rem_def sgn_if)


lemma pick_loop_char:
  assumes n: "0 < length (PROXIES cfg)"
  shows "cursor_ok cfg s \<Longrightarrow> pick_loop cfg clk k s = (r, s') \<Longrightarrow>
     proxyHealth s' = proxyHealth s \<and> cursor_ok cfg s' \<and>
     ((r = Null \<and> reads s' = reads s + k \<and>
        (0 < k \<longrightarrow> proxyIndex s' = (proxyIndex s + int k) mod int (length (PROXIES cfg))) \<and>
        (k = 0 \<longrightarrow> proxyIndex s' = proxyIndex s) \<and>
        (\<forall>j<k. \<not> healthy_at s (cand cfg (proxyIndex s) j) (clk (reads s + j))))
      \<or> (\<exists>d<k. r = Url (cand cfg (proxyIndex s) d) \<and>
            proxyIndex s' = (proxyIndex s + 1 + int d) mod int (length (PROXIES cfg)) \<and>
            reads s + d \<le> reads s' \<and> reads s' \<le> reads s + d + 1 \<and>
            healthy_at s (cand cfg (proxyIndex s) d) (clk (reads s + d)) \<and>
            (\<forall>j<d. \<not> healthy_at s (cand cfg (proxyIndex s) j) (clk (reads s + j)))))"
proof (induction k arbitrary: s)
  case 0
  then show ?case by simp
next
  case (Suc k)
  let ?n = "int (length (PROXIES cfg))"
  let ?c = "proxyIndex s"
  let ?c1 = "(?c + 1) mod ?n"
  let ?s1 = "s\<lparr>proxyIndex := ?c1\<rparr>"
  from Suc.prems(1) n have c: "0 \<le> ?c + 1" "?c + 1 \<le> ?n" "0 < ?n"
    by (auto simp: cursor_ok_def)
  have rem: "js_rem (?c + 1) ?n = ?c1" using c by (simp add: js_rem_nonneg)
  have c1: "0 \<le> ?c1" "?c1 < ?n" using c by simp_all
  have ci: "js_index (PROXIES cfg) ?c1 = Url (cand cfg ?c 0)"
    using c1 by (simp add: js_index_def cand_def)
  have ok1: "cursor_ok cfg ?s1" using c1 by (simp add: cursor_ok_def)
  have shift: "cand cfg ?c1 j = cand cfg ?c (Suc j)" for j
  proof -
    have "(?c1 + (1 + int j)) mod ?n = ((?c + 1) + (1 + int j)) mod ?n"
      by (rule mod_add_left_eq)
    then show ?thesis by (simp add: cand_def add.assoc)
  qed
  show ?case
  proof (cases "proxyHealth s (cand cfg ?c 0)")
    case None
    with Suc.prems(2) have "r = Url (cand cfg ?c 0)" "s' = ?s1"
      by (auto simp: rem ci Let_def)
    then show ?thesis using ok1 None
      by (auto simp: healthy_at_def)
  next
    case (Some st)
    show ?thesis
    proof (cases "downUntil st \<le> clk (reads s)")
      case True
      with Some Suc.prems(2) have "r = Url (cand cfg ?c 0)" "s' = ?s1\<lparr>reads := Suc (reads s)\<rparr>"
        by (auto simp: rem ci Let_def now_def)
      then show ?thesis using ok1 Some True
        by (auto simp: healthy_at_def cursor_ok_def)
    next
      case False
      let ?s2 = "?s1\<lparr>reads := Suc (reads s)\<rparr>"
      from False Some Suc.prems(2) have rec: "pick_loop cfg clk k ?s2 = (r, s')"
        by (auto simp: rem ci Let_def now_def)
      have ok2: "cursor_ok cfg ?s2" using c1 by (simp add: cursor_ok_def)
      have h2: "healthy_at ?s2 p t = healthy_at s p t" for p t
        by (simp add: healthy_at_def)
      have nh0: "\<not> healthy_at s (cand cfg ?c 0) (clk (reads s))"
        using Some False by (simp add: healthy_at_def)
      have p2: "proxyIndex ?s2 = ?c1" "reads ?s2 = Suc (reads s)" "proxyHealth ?s2 = proxyHealth s"
        by simp_all
      note IH0 = Suc.IH[OF ok2 rec]
      from IH0 have ph: "proxyHealth s' = proxyHealth s" and ok': "cursor_ok cfg s'"
        by simp_all
      from IH0 have IH: "(r = Null \<and> reads s' = Suc (reads s) + k \<and>
        (0 < k \<longrightarrow> proxyIndex s' = (?c1 + int k) mod ?n) \<and>
        (k = 0 \<longrightarrow> proxyIndex s' = ?c1) \<and>
        (\<forall>j<k. \<not> healthy_at s (cand cfg ?c (Suc j)) (clk (Suc (reads s) + j))))
      \<or> (\<exists>d<k. r = Url (cand cfg ?c (Suc d)) \<and>
            proxyIndex s' = (?c1 + 1 + int d) mod ?n \<and>
            Suc (reads s) + d \<le> reads s' \<and> reads s' \<le> Suc (reads s) + d + 1 \<and>
            healthy_at s (cand cfg ?c (Suc d)) (clk (Suc (reads s) + d)) \<and>
            (\<forall>j<d. \<not> healthy_at s (cand cfg ?c (Suc j)) (clk (Suc (reads s) + j))))"
        unfolding p2 h2 shift by blast
      from IH consider
        (null) "r = Null" "reads s' = Suc (reads s + k)"
           "0 < k \<longrightarrow> proxyIndex s' = (?c1 + int k) mod ?n"
           "k = 0 \<longrightarrow> proxyIndex s' = ?c1"
           "\<forall>j<k. \<not> healthy_at s (cand cfg ?c (Suc j)) (clk (Suc (reads s + j)))"
        | (found) d where "d < k" "r = Url (cand cfg ?c (Suc d))"
           "proxyIndex s' = (?c1 + 1 + int d) mod ?n"
           "Suc (reads s + d) \<le> reads s'" "reads s' \<le> Suc (Suc (reads s + d))"
           "healthy_at s (cand cfg ?c (Suc d)) (clk (Suc (reads s + d)))"
           "\<forall>j<d. \<not> healthy_at s (cand cfg ?c (Suc j)) (clk (Suc (reads s + j)))"
        by auto
      then show ?thesis
      proof cases
        case null
        have idx: "proxyIndex s' = (?c + int (Suc k)) mod ?n"
        proof (cases k)
          case 0 with null show ?thesis by simp
        next
          case (Suc k') with null have "proxyIndex s' = (?c1 + int k) mod ?n" by simp
          also have "\<dots> = ((?c + 1) + int k) mod ?n" by (rule mod_add_left_eq)
          also have "(?c + 1) + int k = ?c + int (Suc k)" by simp
          finally show ?thesis .
        qed
        have all: "\<forall>j<Suc k. \<not> healthy_at s (cand cfg ?c j) (clk (reads s + j))"
        proof (intro allI impI)
          fix j assume "j < Suc k"
          show "\<not> healthy_at s (cand cfg ?c j) (clk (reads s + j))"
          proof (cases j)
            case 0 then show ?thesis using nh0 by simp
          next
            case (Suc j') with \<open>j < Suc k\<close> null(5) show ?thesis by simp
          qed
        qed
        show ?thesis using null(1,2) idx all ph ok' by simp
      next
        case found
        have "(?c1 + (1 + int d)) mod ?n = ((?c + 1) + (1 + int d)) mod ?n"
          by (rule mod_add_left_eq)
        with found(3) have idx: "proxyIndex s' = (?c + 1 + int (Suc d)) mod ?n"
          by (simp add: add.assoc)
        have all: "\<forall>j<Suc d. \<not> healthy_at s (cand cfg ?c j) (clk (reads s + j))"
        proof (intro allI impI)
          fix j assume "j < Suc d"
          show "\<not> healthy_at s (cand cfg ?c j) (clk (reads s + j))"
          proof (cases j)
            case 0 then show ?thesis using nh0 by simp
          next
            case (Suc j') with \<open>j < Suc d\<close> found(7) show ?thesis by simp
          qed
        qed
        have "\<exists>d<Suc k. r = Url (cand cfg ?c d) \<and>
            proxyIndex s' = (?c + 1 + int d) mod ?n \<and>
            reads s + d \<le> reads s' \<and> reads s' \<le> reads s + d + 1 \<and>
            healthy_at s (cand cfg ?c d) (clk (reads s + d)) \<and>
            (\<forall>j<d. \<not> healthy_at s (cand cfg ?c j) (clk (reads s + j)))"
          apply (rule exI[of _ "Suc d"])
          using found idx all by simp
        then show ?thesis using ph ok' by blast
      qed
    qed
  qed
qed


lemma cand_in_pool:
  assumes "0 < length (PROXIES cfg)"
  shows "cand cfg c j \<in> set (PROXIES cfg)"
proof -
  let ?n = "int (length (PROXIES cfg))"
  have "0 \<le> (c + 1 + int j) mod ?n" "(c + 1 + int j) mod ?n < ?n"
    using assms by simp_all
  then have "nat ((c + 1 + int j) mod ?n) < length (PROXIES cfg)" by linarith
  then show ?thesis unfolding cand_def by (rule nth_mem)
qed

lemma pickNextProxy_char:
  assumes n: "0 < length (PROXIES cfg)" and ok: "cursor_ok cfg s"
    and p: "pickNextProxy cfg clk s = (r, s')"
  shows "proxyHealth s' = proxyHealth s \<and> cursor_ok cfg s' \<and>
     ((r = Null \<and> reads s' = reads s + length (PROXIES cfg) \<and>
        proxyIndex s' = (proxyIndex s + int (length (PROXIES cfg))) mod int (length (PROXIES cfg)) \<and>
        (\<forall>j<length (PROXIES cfg). \<not> healthy_at s (cand cfg (proxyIndex s) j) (clk (reads s + j))))
      \<or> (\<exists>d<length (PROXIES cfg). r = Url (cand cfg (proxyIndex s) d) \<and>
            proxyIndex s' = (proxyIndex s + 1 + int d) mod int (length (PROXIES cfg)) \<and>
            reads s + d \<le> reads s' \<and> reads s' \<le> reads s + d + 1 \<and>
            healthy_at s (cand cfg (proxyIndex s) d) (clk (reads s + d)) \<and>
            (\<forall>j<d. \<not> healthy_at s (cand cfg (proxyIndex s) j) (clk (reads s + j)))))"
proof -
  from n p have "pick_loop cfg clk (length (PROXIES cfg)) s = (r, s')"
    by (simp add: pickNextProxy_def)
  from pick_loop_char[OF n ok this] n show ?thesis by simp
qed

lemma pickNextProxy_next_healthy:
  assumes n: "0 < length (PROXIES cfg)" and ok: "cursor_ok cfg s"
    and h: "healthy_at s (cand cfg (proxyIndex s) 0) (clk (reads s))"
    and p: "pickNextProxy cfg clk s = (r, s')"
  shows "r = Url (cand cfg (proxyIndex s) 0) \<and> proxyHealth s' = proxyHealth s \<and>
         cursor_ok cfg s' \<and>
         proxyIndex s' = (proxyIndex s + 1) mod int (length (PROXIES cfg)) \<and>
         reads s \<le> reads s' \<and> reads s' \<le> Suc (reads s)"
proof -
  note ch = pickNextProxy_char[OF n ok p]
  from ch have base: "proxyHealth s' = proxyHealth s" "cursor_ok cfg s'" by simp_all
  from ch consider
    (null) "\<forall>j<length (PROXIES cfg). \<not> healthy_at s (cand cfg (proxyIndex s) j) (clk (reads s + j))"
    | (found) d where "r = Url (cand cfg (proxyIndex s) d)"
        "proxyIndex s' = (proxyIndex s + 1 + int d) mod int (length (PROXIES cfg))"
        "reads s + d \<le> reads s'" "reads s' \<le> reads s + d + 1"
        "\<forall>j<d. \<not> healthy_at s (cand cfg (proxyIndex s) j) (clk (reads s + j))"
    by blast
  then show ?thesis
  proof cases
    case null
    with n h show ?thesis by force
  next
    case found
    have "d = 0"
    proof (rule ccontr)
      assume "d \<noteq> 0"
      then have "0 < d" by simp
      with found(5) h show False by force
    qed
    with found base show ?thesis by simp
  qed
qed







text \<open>
  Claim C6 (all proxies down). If every proxy of the pool has a record whose down-until
  timestamp is strictly greater than each of the clock readings of the call, then
  \<^verbatim>\<open>pickNextProxy\<close> returns \<^verbatim>\<open>null\<close>, having read the clock once per pool entry, that is
  after exactly one cycle over the pool, and leaves the health map as it was. The call
  always returns: its loop is bounded by the pool size.
\<close>

theorem pickNextProxy_all_down:
  assumes ok: "cursor_ok cfg s"
    and down: "\<forall>p\<in>set (PROXIES cfg). \<exists>st. proxyHealth s p = Some st \<and>
                 (\<forall>j<length (PROXIES cfg). clk (reads s + j) < downUntil st)"
  shows "fst (pickNextProxy cfg clk s) = Null \<and>
         reads (snd (pickNextProxy cfg clk s)) = reads s + length (PROXIES cfg) \<and>
         proxyHealth (snd (pickNextProxy cfg clk s)) = proxyHealth s"
proof (cases "length (PROXIES cfg) = 0")
  case True
  then show ?thesis by (simp add: pickNextProxy_def)
next
  case False
  then have n: "0 < length (PROXIES cfg)" by simp
  obtain r s' where p: "pickNextProxy cfg clk s = (r, s')" by (cases "pickNextProxy cfg clk s")
  note ch = pickNextProxy_char[OF n ok p]
  have unhealthy: "\<not> healthy_at s q (clk (reads s + j))"
    if "q \<in> set (PROXIES cfg)" "j < length (PROXIES cfg)" for q j
  proof -
    from down that(1) obtain st where "proxyHealth s q = Some st"
      "\<forall>j<length (PROXIES cfg). clk (reads s + j) < downUntil st" by blast
    with that(2) show ?thesis by (simp add: healthy_at_def not_le)
  qed
  have "\<not> (\<exists>d<length (PROXIES cfg). healthy_at s (cand cfg (proxyIndex s) d) (clk (reads s + d)))"
    using unhealthy cand_in_pool[OF n] by blast
  with ch have "r = Null \<and> reads s' = reads s + length (PROXIES cfg) \<and> proxyHealth s' = proxyHealth s"
    by blast
  with p show ?thesis by simp
qed

lemma pick_loop_Url:
  "pick_loop cfg clk k s = (Url u, s') \<Longrightarrow> \<exists>j<k. healthy_at s u (clk (reads s + j))"
proof (induction k arbitrary: s)
  case 0
  then show ?case by simp
next
  case (Suc k)
  let ?s1 = "s\<lparr>proxyIndex := js_rem (proxyIndex s + 1) (int (length (PROXIES cfg)))\<rparr>"
  let ?c = "js_index (PROXIES cfg) (proxyIndex ?s1)"
  show ?case
  proof (cases "proxyHealth s (key_of ?c)")
    case None
    with Suc.prems have "?c = Url u" by (auto simp: Let_def)
    with None have "healthy_at s u (clk (reads s + 0))" by (simp add: healthy_at_def)
    then show ?thesis by blast
  next
    case (Some st)
    show ?thesis
    proof (cases "downUntil st \<le> clk (reads s)")
      case True
      with Some Suc.prems have "?c = Url u" by (auto simp: Let_def now_def)
      with Some True have "healthy_at s u (clk (reads s + 0))" by (simp add: healthy_at_def)
      then show ?thesis by blast
    next
      case False
      let ?s2 = "?s1\<lparr>reads := Suc (reads s)\<rparr>"
      from False Some Suc.prems have "pick_loop cfg clk k ?s2 = (Url u, s')"
        by (simp add: Let_def now_def)
      from Suc.IH[OF this] obtain j where "j < k" "healthy_at ?s2 u (clk (reads ?s2 + j))"
        by blast
      then have "Suc j < Suc k" "healthy_at s u (clk (reads s + Suc j))"
        by (simp_all add: healthy_at_def)
      then show ?thesis by blast
    qed
  qed
qed

lemma pickNextProxy_Url:
  assumes "pickNextProxy cfg clk s = (Url u, s')"
  shows "\<exists>j<length (PROXIES cfg). healthy_at s u (clk (reads s + j))"
proof -
  from assms have "pick_loop cfg clk (length (PROXIES cfg)) s = (Url u, s')"
    by (simp add: pickNextProxy_def Let_def split: if_splits)
  then show ?thesis by (rule pick_loop_Url)
qed

text \<open>
  Claim C5 (mark-down window). Let \<^verbatim>\<open>markProxyDown(p)\<close> run in state \<open>s\<close>, at time
  \<open>t = clk (reads s)\<close>. In any later state \<open>s2\<close> that still holds the record written
  for \<open>p\<close>, a call of \<^verbatim>\<open>pickNextProxy\<close> whose clock readings are all strictly before
  \<open>t + PROXY_MARK_DOWN_MS\<close> does not return \<open>p\<close>. In any state \<open>s3\<close> that holds the same
  record, with the clock at or past \<open>t + PROXY_MARK_DOWN_MS\<close>, \<open>p\<close> is selected as soon
  as it is the next pool entry after the cursor, and the call changes no health record.
\<close>

theorem mark_down_window:
  assumes early_rec: "proxyHealth s2 p = proxyHealth (markProxyDown cfg clk p s) p"
    and early: "\<forall>j<length (PROXIES cfg).
                  clk (reads s2 + j) < clk (reads s) + PROXY_MARK_DOWN_MS cfg"
    and late_rec: "proxyHealth s3 p = proxyHealth (markProxyDown cfg clk p s) p"
    and late: "clk (reads s) + PROXY_MARK_DOWN_MS cfg \<le> clk (reads s3)"
    and n: "0 < length (PROXIES cfg)" and ok: "cursor_ok cfg s3"
    and nxt: "cand cfg (proxyIndex s3) 0 = p"
  shows "fst (pickNextProxy cfg clk s2) \<noteq> Url p \<and>
         fst (pickNextProxy cfg clk s3) = Url p \<and>
         proxyHealth (snd (pickNextProxy cfg clk s3)) = proxyHealth s3"
proof -
  have rec: "proxyHealth (markProxyDown cfg clk p s) p =
      Some \<lparr>downUntil = clk (reads s) + PROXY_MARK_DOWN_MS cfg\<rparr>"
    by (simp add: markProxyDown_def now_def)
  have a: "fst (pickNextProxy cfg clk s2) \<noteq> Url p"
  proof
    assume "fst (pickNextProxy cfg clk s2) = Url p"
    then have "pickNextProxy cfg clk s2 = (Url p, snd (pickNextProxy cfg clk s2))"
      by (simp add: prod_eq_iff)
    from pickNextProxy_Url[OF this] obtain j
      where "j < length (PROXIES cfg)" "healthy_at s2 p (clk (reads s2 + j))" by blast
    with rec early_rec early show False by (auto simp: healthy_at_def)
  qed
  obtain r s' where pk: "pickNextProxy cfg clk s3 = (r, s')"
    by (cases "pickNextProxy cfg clk s3")
  have h: "healthy_at s3 (cand cfg (proxyIndex s3) 0) (clk (reads s3))"
    using late late_rec rec nxt by (simp add: healthy_at_def)
  from pickNextProxy_next_healthy[OF n ok h pk] nxt pk
  have "fst (pickNextProxy cfg clk s3) = Url p"
    and "proxyHealth (snd (pickNextProxy cfg clk s3)) = proxyHealth s3"
    by simp_all
  with a show ?thesis by simp
qed

lemma pick_loop_proxyHealth: "proxyHealth (snd (pick_loop cfg clk k s)) = proxyHealth s"
  by (induction k arbitrary: s) (simp_all add: Let_def now_def split: option.splits)

lemma pick_loop_reads: "reads s \<le> reads (snd (pick_loop cfg clk k s))"
proof (induction k arbitrary: s)
  case 0
  then show ?case by simp
next
  case (Suc k)
  let ?s2 = "s\<lparr>proxyIndex := js_rem (proxyIndex s + 1) (int (length (PROXIES cfg))),
                 reads := Suc (reads s)\<rparr>"
  have "reads ?s2 \<le> reads (snd (pick_loop cfg clk k ?s2))" by (rule Suc.IH)
  then show ?case by (auto simp: Let_def now_def split: option.splits)
qed

lemma pickNextProxy_proxyHealth: "proxyHealth (snd (pickNextProxy cfg clk s)) = proxyHealth s"
  by (simp add: pickNextProxy_def Let_def pick_loop_proxyHealth)

lemma pickNextProxy_reads: "reads s \<le> reads (snd (pickNextProxy cfg clk s))"
  by (simp add: pickNextProxy_def Let_def pick_loop_reads)

text \<open>Every stored window was computed from a clock reading already made.\<close>

lemma reachable_windows:
  assumes "reachable cfg clk s"
  shows "proxyHealth s p = Some st \<Longrightarrow>
         \<exists>k<reads s. downUntil st = clk k + PROXY_MARK_DOWN_MS cfg"
  using assms
proof (induction arbitrary: p st)
  case reach_init
  then show ?case by (simp add: initial_state_def)
next
  case (reach_pick s)
  from reach_pick.prems have "proxyHealth s p = Some st"
    by (simp add: pickNextProxy_proxyHealth)
  from reach_pick.IH[OF this] obtain k where "k < reads s"
    "downUntil st = clk k + PROXY_MARK_DOWN_MS cfg" by blast
  moreover have "reads s \<le> reads (snd (pickNextProxy cfg clk s))"
    by (rule pickNextProxy_reads)
  ultimately show ?case by (meson less_le_trans)
next
  case (reach_mark s q)
  show ?case
  proof (cases "p = q")
    case True
    with reach_mark.prems have "downUntil st = clk (reads s) + PROXY_MARK_DOWN_MS cfg"
      by (auto simp: markProxyDown_def now_def)
    moreover have "reads s < reads (markProxyDown cfg clk q s)"
      by (simp add: markProxyDown_def now_def)
    ultimately show ?thesis by blast
  next
    case False
    with reach_mark.prems have "proxyHealth s p = Some st"
      by (simp add: markProxyDown_def now_def)
    from reach_mark.IH[OF this] obtain k where "k < reads s"
      "downUntil st = clk k + PROXY_MARK_DOWN_MS cfg" by blast
    moreover have "reads s < reads (markProxyDown cfg clk q s)"
      by (simp add: markProxyDown_def now_def)
    ultimately show ?thesis by (meson less_trans)
  qed
next
  case (reach_read s)
  from reach_read.prems have "proxyHealth s p = Some st" by (simp add: now_def)
  from reach_read.IH[OF this] obtain k where "k < reads s"
    "downUntil st = clk k + PROXY_MARK_DOWN_MS cfg" by blast
  then show ?case by (auto simp: now_def intro: less_SucI)
qed

text \<open>
  Claim C9 (the window only moves forward). In every state the module can reach, with a
  non-decreasing clock, a call of \<^verbatim>\<open>markProxyDown(p)\<close> replaces the stored down-until
  timestamp of \<open>p\<close> by \<open>now + PROXY_MARK_DOWN_MS\<close>, which is at least the stored one; the
  other operations on the module state, \<^verbatim>\<open>pickNextProxy\<close> and \<^verbatim>\<open>Date.now()\<close>, leave the
  stored timestamp as it is.
\<close>

theorem downUntil_never_decreases:
  assumes "reachable cfg clk s" and "mono clk" and "proxyHealth s p = Some st"
  shows "proxyHealth (markProxyDown cfg clk p s) p =
           Some \<lparr>downUntil = clk (reads s) + PROXY_MARK_DOWN_MS cfg\<rparr> \<and>
         downUntil st \<le> clk (reads s) + PROXY_MARK_DOWN_MS cfg \<and>
         proxyHealth (snd (pickNextProxy cfg clk s)) p = Some st \<and>
         proxyHealth (snd (now clk s)) p = Some st"
proof -
  from reachable_windows[OF assms(1,3)] obtain k where k: "k < reads s"
    "downUntil st = clk k + PROXY_MARK_DOWN_MS cfg" by blast
  from k(1) assms(2) have "clk k \<le> clk (reads s)" by (simp add: monoD)
  with k(2) have "downUntil st \<le> clk (reads s) + PROXY_MARK_DOWN_MS cfg" by simp
  then show ?thesis using assms(3)
    by (simp add: markProxyDown_def now_def pickNextProxy_proxyHealth)
qed


lemma tick_clock_mono: "mono tick_clock"
  by (simp add: mono_def tick_clock_def)


theorem pickNextProxy_all_down_witness:
  "fst (pickNextProxy default_config tick_clock (all_marked_down default_config tick_clock)) = Null \<and>
   reads (snd (pickNextProxy default_config tick_clock (all_marked_down default_config tick_clock))) = 16"
proof -
  let ?s = "all_marked_down default_config tick_clock"
  have ok: "cursor_ok default_config ?s"
    by (simp add: cursor_ok_def all_marked_down_def default_config_def DEFAULT_PROXIES_def
        markProxyDown_def now_def initial_state_def)
  have rd: "reads ?s = 8"
    by (simp add: all_marked_down_def default_config_def DEFAULT_PROXIES_def
        markProxyDown_def now_def initial_state_def)
  have len: "length (PROXIES default_config) = 8"
    by (simp add: default_config_def DEFAULT_PROXIES_def)
  have down: "\<forall>p\<in>set (PROXIES default_config). \<exists>st. proxyHealth ?s p = Some st \<and>
      (\<forall>j<length (PROXIES default_config). tick_clock (reads ?s + j) < downUntil st)"
    unfolding rd len
    by (simp add: all_marked_down_def default_config_def DEFAULT_PROXIES_def
        markProxyDown_def now_def initial_state_def tick_clock_def)
  from pickNextProxy_all_down[OF ok down] show ?thesis
    by (simp add: rd len)
qed

theorem mark_down_window_witness:
  "fst (pickNextProxy default_config tick_clock
          (markProxyDown default_config tick_clock ''https://cors.bridged.cc/'' initial_state))
     \<noteq> Url ''https://cors.bridged.cc/'' \<and>
   fst (pickNextProxy default_config tick_clock
          ((markProxyDown default_config tick_clock ''https://cors.bridged.cc/'' initial_state)
             \<lparr>reads := 45\<rparr>))
     = Url ''https://cors.bridged.cc/''"
proof -
  let ?p = "''https://cors.bridged.cc/''"
  let ?s2 = "markProxyDown default_config tick_clock ?p initial_state"
  let ?s3 = "?s2\<lparr>reads := 45\<rparr>"
  have e_rec: "proxyHealth ?s2 ?p = proxyHealth (markProxyDown default_config tick_clock ?p initial_state) ?p"
    by simp
  have early: "\<forall>j<length (PROXIES default_config).
      tick_clock (reads ?s2 + j) < tick_clock (reads initial_state) + PROXY_MARK_DOWN_MS default_config"
    by (simp add: default_config_def DEFAULT_PROXIES_def markProxyDown_def now_def
        initial_state_def tick_clock_def)
  have l_rec: "proxyHealth ?s3 ?p = proxyHealth (markProxyDown default_config tick_clock ?p initial_state) ?p"
    by simp
  have late: "tick_clock (reads initial_state) + PROXY_MARK_DOWN_MS default_config
      \<le> tick_clock (reads ?s3)"
    by (simp add: default_config_def initial_state_def tick_clock_def)
  have n: "0 < length (PROXIES default_config)"
    by (simp add: default_config_def DEFAULT_PROXIES_def)
  have ok: "cursor_ok default_config ?s3"
    by (simp add: cursor_ok_def markProxyDown_def now_def initial_state_def)
  have nxt: "cand default_config (proxyIndex ?s3) 0 = ?p"
    by (simp add: cand_def markProxyDown_def now_def initial_state_def default_config_def
        DEFAULT_PROXIES_def)
  from mark_down_window[OF e_rec early l_rec late n ok nxt] show ?thesis by simp
qed

theorem downUntil_never_decreases_witness:
  "proxyHealth (markProxyDown default_config tick_clock ''https://proxy.cors.sh/''
      (markProxyDown default_config tick_clock ''https://proxy.cors.sh/'' initial_state))
     ''https://proxy.cors.sh/'' = Some \<lparr>downUntil = 46000\<rparr> \<and>
   (45000 :: int) \<le> 46000"
proof -
  let ?p = "''https://proxy.cors.sh/''"
  let ?s = "markProxyDown default_config tick_clock ?p initial_state"
  have r: "reachable default_config tick_clock ?s"
    by (rule reach_mark[OF reach_init])
  have m: "mono tick_clock" by (rule tick_clock_mono)
  have h: "proxyHealth ?s ?p = Some \<lparr>downUntil = 45000\<rparr>"
    by (simp add: markProxyDown_def now_def initial_state_def tick_clock_def default_config_def)
  have rd: "reads ?s = 1" by (simp add: markProxyDown_def now_def initial_state_def)
  have d: "PROXY_MARK_DOWN_MS default_config = 45000" by (simp add: default_config_def)
  have c: "tick_clock 1 = 1000" by (simp add: tick_clock_def)
  from downUntil_never_decreases[OF r m h, unfolded rd d c] show ?thesis
    by simp
qed

section \<open>The retry loop: properties\<close>

declare retry_loop.simps [simp del]

lemma read_params_post_event: "read_params (constant_world res) post_event = Inr sample_params"
  by (simp add: read_params_def constant_world_def post_event_def sample_parse_def
      sample_payload_def sample_params_def)

lemma attempt_body_not_ok:
  assumes "pickNextProxy cfg (clock w) s = (proxy, s1)"
    and "upstream w attempt (fetch_opts pr proxy) (REQUEST_TIMEOUT_MS cfg) = Responded res"
    and "\<not> ok res"
  shows "attempt_body cfg w pr attempt s =
     (let s3 = s1\<lparr>reads := Suc (Suc (reads s1))\<rparr>;
          latency = clock w (Suc (reads s1)) - clock w (reads s1);
          text = (case text_result res of Inl e \<Rightarrow> ''<no body>'' | Inr x \<Rightarrow> x);
          lastError = JObj [(''status'', JNum (int (status res))), (''text'', JStr text),
                            (''proxy'', proxy_or_null proxy), (''latency'', JNum latency)]
      in if truthy_ref proxy \<and> 500 \<le> status res \<and> status res < 600 then
           (Continue lastError, markProxyDown cfg (clock w) (key_of proxy) s3,
            [Fetched proxy (fetch_opts pr proxy), Slept (backoff cfg attempt)])
         else
           (Return \<lparr>statusCode = status res,
                    body = stringify (JObj [(''error'', JStr ''Upstream returned error''),
                                            (''details'', JStr text)]),
                    headers = Some cors_json\<rparr>,
            s3, [Fetched proxy (fetch_opts pr proxy)]))"
  using assms by (simp add: attempt_body_def now_def Let_def)


lemma attempt_body_rejected:
  assumes "pickNextProxy cfg (clock w) s = (proxy, s1)"
    and "upstream w attempt (fetch_opts pr proxy) (REQUEST_TIMEOUT_MS cfg) = Rejected msg"
  shows "attempt_body cfg w pr attempt s =
     (Continue (JObj [(''error'', JStr msg), (''proxy'', proxy_or_null proxy),
                      (''attempt'', JNum (int attempt))]),
      (if truthy_ref proxy
       then markProxyDown cfg (clock w) (key_of proxy) (s1\<lparr>reads := Suc (reads s1)\<rparr>)
       else s1\<lparr>reads := Suc (reads s1)\<rparr>),
      [Fetched proxy (fetch_opts pr proxy), Slept (backoff cfg attempt)])"
  using assms by (simp add: attempt_body_def attempt_catch_def now_def Let_def)

lemma retry_loop_Return:
  assumes "attempt < MAX_RETRIES cfg" and "attempt_body cfg w pr attempt s = (Return r, s1, es)"
  shows "retry_loop cfg w pr attempt lastError s = (r, s1, es)"
  using assms by (simp add: retry_loop.simps)



lemma handler_post:
  assumes "httpMethod ev = ''POST''" and "read_params w ev = Inr pr"
  shows "handler cfg w ev s = retry_loop cfg w pr 0 JNull s"
  using assms by (simp add: handler_def)

lemma pickNextProxy_initial:
  "pickNextProxy default_config tick_clock initial_state =
     (Url ''https://cors.bridged.cc/'', initial_state\<lparr>proxyIndex := 0\<rparr>)"
  by (simp add: pickNextProxy_def default_config_def DEFAULT_PROXIES_def initial_state_def
      js_rem_def js_index_def Let_def)






text \<open>
  Claim C3, as amended. When the first attempt is answered with a status that is neither
  2xx nor 5xx, the handler answers at once, after that single attempt: with the status of
  the upstream and, as body, the JSON text of
  \<^verbatim>\<open>{ error: "Upstream returned error", details: text }\<close>, where \<open>text\<close> is the body of the
  upstream (or \<^verbatim>\<open><no body>\<close> when it cannot be read). No proxy is marked down and no
  further attempt is made.
\<close>

theorem client_error_returned_at_once:
  assumes "httpMethod ev = ''POST''" and "read_params w ev = Inr pr"
    and "0 < MAX_RETRIES cfg"
    and "pickNextProxy cfg (clock w) s = (proxy, s1)"
    and "upstream w 0 (fetch_opts pr proxy) (REQUEST_TIMEOUT_MS cfg) = Responded res"
    and "\<not> ok res" and "status res < 500 \<or> 600 \<le> status res"
  shows "handler cfg w ev s =
           (\<lparr>statusCode = status res,
             body = stringify (JObj [(''error'', JStr ''Upstream returned error''),
                      (''details'', JStr (case text_result res of
                                            Inl e \<Rightarrow> ''<no body>'' | Inr x \<Rightarrow> x))]),
             headers = Some cors_json\<rparr>,
            s1\<lparr>reads := Suc (Suc (reads s1))\<rparr>,
            [Fetched proxy (fetch_opts pr proxy)]) \<and>
         proxyHealth (s1\<lparr>reads := Suc (Suc (reads s1))\<rparr>) = proxyHealth s"
proof -
  have ph: "proxyHealth s1 = proxyHealth s"
    using pickNextProxy_proxyHealth[of cfg "clock w" s] assms(4) by simp
  have "attempt_body cfg w pr 0 s =
      (Return \<lparr>statusCode = status res,
             body = stringify (JObj [(''error'', JStr ''Upstream returned error''),
                      (''details'', JStr (case text_result res of
                                            Inl e \<Rightarrow> ''<no body>'' | Inr x \<Rightarrow> x))]),
             headers = Some cors_json\<rparr>,
       s1\<lparr>reads := Suc (Suc (reads s1))\<rparr>, [Fetched proxy (fetch_opts pr proxy)])"
    using attempt_body_not_ok[OF assms(4,5,6)] assms(7) by (auto simp: Let_def)
  from retry_loop_Return[OF assms(3) this]
  have "retry_loop cfg w pr 0 JNull s =
      (\<lparr>statusCode = status res,
             body = stringify (JObj [(''error'', JStr ''Upstream returned error''),
                      (''details'', JStr (case text_result res of
                                            Inl e \<Rightarrow> ''<no body>'' | Inr x \<Rightarrow> x))]),
             headers = Some cors_json\<rparr>,
       s1\<lparr>reads := Suc (Suc (reads s1))\<rparr>, [Fetched proxy (fetch_opts pr proxy)])" .
  with handler_post[OF assms(1,2)] ph show ?thesis by simp
qed

theorem client_error_returned_at_once_witness:
  "handler default_config (constant_world response_404) post_event initial_state =
     (\<lparr>statusCode = 404,
       body = stringify (JObj [(''error'', JStr ''Upstream returned error''),
                               (''details'', JStr ''not found'')]),
       headers = Some cors_json\<rparr>,
      initial_state\<lparr>proxyIndex := 0, reads := 2\<rparr>,
      [Fetched (Url ''https://cors.bridged.cc/'')
         (fetch_opts sample_params (Url ''https://cors.bridged.cc/''))])"
proof -
  let ?w = "constant_world response_404"
  have m: "httpMethod post_event = ''POST''" by (simp add: post_event_def)
  have r: "0 < MAX_RETRIES default_config" by (simp add: default_config_def)
  have p: "pickNextProxy default_config (clock ?w) initial_state =
      (Url ''https://cors.bridged.cc/'', initial_state\<lparr>proxyIndex := 0\<rparr>)"
    using pickNextProxy_initial by (simp add: constant_world_def)
  have u: "upstream ?w 0 (fetch_opts sample_params (Url ''https://cors.bridged.cc/''))
      (REQUEST_TIMEOUT_MS default_config) = Responded response_404"
    by (simp add: constant_world_def)
  have nok: "\<not> ok response_404" by (simp add: ok_def response_404_def)
  have st: "status response_404 < 500 \<or> 600 \<le> status response_404"
    by (simp add: response_404_def)
  from client_error_returned_at_once[OF m read_params_post_event r p u nok st]
  show ?thesis by (simp add: response_404_def initial_state_def)
qed

text \<open>
  The body the handler returns for an upstream 404 whose body is \<^verbatim>\<open>not found\<close>: the JSON
  text of the envelope, not the body of the upstream.
\<close>

theorem client_error_body_counterexample:
  "status response_404 = 404 \<and> text_result response_404 = Inr ''not found'' \<and>
   body (fst (handler default_config (constant_world response_404) post_event initial_state)) =
     stringify (JObj [(''error'', JStr ''Upstream returned error''),
                      (''details'', JStr ''not found'')]) \<and>
   body (fst (handler default_config (constant_world response_404) post_event initial_state)) \<noteq>
     ''not found''"
  by code_simp

text \<open>
  Claim C7. The two early answers of the handler, 405 for a method other than
  \<^verbatim>\<open>POST\<close> and 400 for a payload without \<^verbatim>\<open>targetUrl\<close>, have a JSON body but no
  \<^verbatim>\<open>headers\<close> property: neither \<^verbatim>\<open>Content-Type\<close> nor \<^verbatim>\<open>Access-Control-Allow-Origin\<close> is
  set on them, while every later answer of the handler sets both.
\<close>

theorem early_answers_carry_no_headers:
  "fst (handler default_config (constant_world response_503) get_event initial_state) =
     \<lparr>statusCode = 405, body = stringify (JObj [(''error'', JStr ''Only POST allowed'')]),
      headers = None\<rparr> \<and>
   header (fst (handler default_config (constant_world response_503) get_event initial_state))
     ''Content-Type'' = None \<and>
   header (fst (handler default_config (constant_world response_503) get_event initial_state))
     ''Access-Control-Allow-Origin'' = None \<and>
   fst (handler default_config (constant_world response_503) empty_post_event initial_state) =
     \<lparr>statusCode = 400, body = stringify (JObj [(''error'', JStr ''targetUrl required'')]),
      headers = None\<rparr> \<and>
   header (fst (handler default_config (constant_world response_503) empty_post_event initial_state))
     ''Content-Type'' = None \<and>
   header (fst (handler default_config (constant_world response_503) empty_post_event initial_state))
     ''Access-Control-Allow-Origin'' = None \<and>
   header (fst (handler default_config (constant_world response_503) post_event initial_state))
     ''Content-Type'' = Some ''application/json'' \<and>
   header (fst (handler default_config (constant_world response_503) post_event initial_state))
     ''Access-Control-Allow-Origin'' = Some ''*''"
  by code_simp

lemma proxies_used_append: "proxies_used (es @ es') = proxies_used es @ proxies_used es'"
  by (induction es rule: proxies_used.induct) simp_all

lemma delays_append: "delays (es @ es') = delays es @ delays es'"
  by (induction es rule: delays.induct) simp_all





section \<open>A run of server errors\<close>















section \<open>Numeric configuration: properties\<close>











end
